theory Spec2Isabelle
  imports Complex_Main "HOL-Library.Multiset"
begin

section \<open>Python primitives used by the context manager\<close>

text \<open>
  The program is \<^verbatim>\<open>examples/basic_context_manager.py\<close>. Its coroutines are awaited one
  after the other on one event loop, so every \<^verbatim>\<open>async def\<close> is a sequential function
  here. Mutation of \<^verbatim>\<open>self\<close> is explicit state passing, a raised exception is the
  \<open>Inl\<close> branch of a sum.

  Numbers. Python's \<^verbatim>\<open>int\<close> is \<open>int\<close>. A Python \<^verbatim>\<open>float\<close> is modelled by the rational
  number it denotes and float arithmetic by exact arithmetic, so the rounding of IEEE
  doubles is not part of the model (\<^verbatim>\<open>0.7\<close> is \<open>7/10\<close>, infinities and NaN do not occur).
  The statements below are about lengths, counts and the order of words, and concrete
  evaluations use inputs on which the double computation and the exact one agree.

  Time. A \<^verbatim>\<open>datetime\<close> is its number of microseconds on the clock (an \<open>int\<close>), a
  \<^verbatim>\<open>timedelta\<close> a difference of two. Every operation that reads \<^verbatim>\<open>datetime.now()\<close>
  takes the reading as its argument \<open>now\<close>; one operation uses one reading.

  Strings. A Python \<^verbatim>\<open>str\<close> is a list of code points; \<open>string\<close> covers the code points
  0..255, one \<open>char\<close> each.
\<close>

datatype error = ValueError string | ZeroDivisionError

text \<open>\<^verbatim>\<open>int(x)\<close> on a float truncates toward zero.\<close>

definition py_int :: "rat \<Rightarrow> int" where
  "py_int x = (if 0 \<le> x then \<lfloor>x\<rfloor> else \<lceil>x\<rceil>)"

text \<open>The slices \<^verbatim>\<open>xs[:k]\<close> and \<^verbatim>\<open>xs[k:]\<close>: a negative index counts from the end, and an
  index out of range is clipped.\<close>

definition py_slice_to :: "'a list \<Rightarrow> int \<Rightarrow> 'a list" where
  "py_slice_to xs k = (if 0 \<le> k then take (nat k) xs else take (nat (int (length xs) + k)) xs)"

definition py_slice_from :: "'a list \<Rightarrow> int \<Rightarrow> 'a list" where
  "py_slice_from xs k = (if 0 \<le> k then drop (nat k) xs else drop (nat (int (length xs) + k)) xs)"

text \<open>\<^verbatim>\<open>str.lower()\<close> on the code points below 256: the ASCII capitals and the Latin-1
  capitals (all of 192..222 but the multiplication sign 215) move up by 32.\<close>

definition lower_char :: "char \<Rightarrow> char" where
  "lower_char c =
     (let n = (of_char c :: nat) in
      if (65 \<le> n \<and> n \<le> 90) \<or> (192 \<le> n \<and> n \<le> 222 \<and> n \<noteq> 215) then char_of (n + 32) else c)"

definition py_lower :: "string \<Rightarrow> string" where
  "py_lower s = map lower_char s"

text \<open>\<^verbatim>\<open>str.split()\<close> with no argument cuts at runs of whitespace and returns no empty
  word. Below 256 the whitespace code points are 9..13, 28..32, 133 and 160.\<close>

definition is_space :: "char \<Rightarrow> bool" where
  "is_space c =
     (let n = (of_char c :: nat) in (9 \<le> n \<and> n \<le> 13) \<or> (28 \<le> n \<and> n \<le> 32) \<or> n = 133 \<or> n = 160)"

fun split_words :: "string \<Rightarrow> string \<Rightarrow> string list" where
  "split_words w [] = (if w = [] then [] else [w])"
| "split_words w (c # cs) =
     (if is_space c then (if w = [] then [] else [w]) @ split_words [] cs
      else split_words (w @ [c]) cs)"

definition py_split :: "string \<Rightarrow> string list" where
  "py_split s = split_words [] s"

text \<open>A \<^verbatim>\<open>dict\<close> keeps its keys in insertion order, and \<^verbatim>\<open>list(d.values())\<close> reads them in
  that order: an association list. Assigning to a key that is present keeps its place,
  a new key goes to the end.\<close>

type_synonym ('k, 'v) dict = "('k \<times> 'v) list"

definition dict_get :: "('k, 'v) dict \<Rightarrow> 'k \<Rightarrow> 'v option" where
  "dict_get d k = map_of d k"

fun dict_set :: "('k, 'v) dict \<Rightarrow> 'k \<Rightarrow> 'v \<Rightarrow> ('k, 'v) dict" where
  "dict_set [] k v = [(k, v)]"
| "dict_set (p # ps) k v = (if fst p = k then (k, v) # ps else p # dict_set ps k v)"

definition dict_pop :: "('k, 'v) dict \<Rightarrow> 'k \<Rightarrow> 'v option \<times> ('k, 'v) dict" where
  "dict_pop d k = (map_of d k, filter (\<lambda>p. fst p \<noteq> k) d)"

definition dict_values :: "('k, 'v) dict \<Rightarrow> 'v list" where
  "dict_values d = map snd d"

definition dict_keys :: "('k, 'v) dict \<Rightarrow> 'k list" where
  "dict_keys d = map fst d"

text \<open>\<^verbatim>\<open>xs.sort(key=f, reverse=True)\<close>: descending by key, and stable (elements with equal
  keys keep their relative order, also with \<^verbatim>\<open>reverse=True\<close>).\<close>

definition py_sort_desc :: "('a \<Rightarrow> rat) \<Rightarrow> 'a list \<Rightarrow> 'a list" where
  "py_sort_desc f xs = sort_key (\<lambda>x. - f x) xs"

section \<open>Data model\<close>

record ContextMetrics =
  total_segments :: int
  active_segments :: int
  total_size_bytes :: int
  compression_ratio :: rat
  cache_hit_rate :: rat
  average_retrieval_time_ms :: rat
  memory_usage_bytes :: int

text \<open>The field \<^verbatim>\<open>id\<close> is \<open>id'\<close> here. \<^verbatim>\<open>metadata\<close> is a dictionary the program never
  reads.\<close>

record ContextSegment =
  id' :: string
  content :: string
  metadata :: "(string \<times> string) list"
  timestamp :: int
  relevance_score :: rat
  access_count :: int
  compression_ratio :: rat

definition ACTIVE :: string where "ACTIVE = ''active''"
definition WORKING :: string where "WORKING = ''working''"
definition LONG_TERM :: string where "LONG_TERM = ''long_term''"

record ContextConfig =
  max_context_size :: int
  working_memory_size :: int
  compression_strategy :: string
  compression_target_ratio :: rat
  compression_quality_threshold :: rat
  retrieval_strategy :: string
  similarity_threshold :: rat
  max_retrieval_results :: int
  cleanup_interval_minutes :: int
  metrics_enabled :: bool

definition default_config :: ContextConfig where
  "default_config =
     \<lparr> max_context_size = 32000, working_memory_size = 128000,
       compression_strategy = ''adaptive'', compression_target_ratio = 3 / 10,
       compression_quality_threshold = 8 / 10, retrieval_strategy = ''hybrid'',
       similarity_threshold = 7 / 10, max_retrieval_results = 20,
       cleanup_interval_minutes = 60, metrics_enabled = True \<rparr>"

section \<open>BasicCompressionEngine\<close>

definition compress :: "string \<Rightarrow> rat \<Rightarrow> string" where
  "compress cont target_ratio =
     (let target_length = py_int (of_nat (length cont) * target_ratio) in
      if target_length \<ge> int (length cont) then cont
      else
        let keep_start = py_int (of_int target_length * (7 / 10));
            keep_end = target_length - keep_start
        in if keep_end > 0
           then py_slice_to cont keep_start @ ''...[truncated]...'' @ py_slice_from cont (- keep_end)
           else py_slice_to cont keep_start @ ''...[truncated]'')"

definition decompress :: "string \<Rightarrow> string" where
  "decompress compressed_content = compressed_content"

definition get_compression_ratio :: "string \<Rightarrow> string \<Rightarrow> rat" where
  "get_compression_ratio original compressed =
     (if length original > 0 then of_nat (length compressed) / of_nat (length original) else 1)"

section \<open>BasicRetrievalEngine\<close>

text \<open>The loop of \<^verbatim>\<open>retrieve\<close> over the candidates. A candidate is an object shared with
  the caller, and the loop writes the score into it: the function returns the candidates
  as they are after the loop, and the list \<^verbatim>\<open>scored_segments\<close>.\<close>

fun score_loop ::
  "string set \<Rightarrow> ContextSegment list \<Rightarrow> ContextSegment list \<Rightarrow>
   ContextSegment list \<times> ContextSegment list" where
  "score_loop query_words [] scored_segments = ([], scored_segments)"
| "score_loop query_words (segment # rest) scored_segments =
     (let content_words = set (py_split (py_lower (content segment)));
          overlap = card (query_words \<inter> content_words)
      in if overlap > 0 then
           let score = of_nat overlap / of_nat (card query_words);
               segment1 = segment\<lparr>relevance_score := score\<rparr>;
               (rest1, out) = score_loop query_words rest (scored_segments @ [segment1])
           in (segment1 # rest1, out)
         else
           let (rest1, out) = score_loop query_words rest scored_segments
           in (segment # rest1, out))"

text \<open>\<^verbatim>\<open>BasicRetrievalEngine.retrieve\<close>: the ranked result, and the candidates after the
  call.\<close>

definition engine_retrieve ::
  "string \<Rightarrow> ContextSegment list \<Rightarrow> int \<Rightarrow> ContextSegment list \<times> ContextSegment list" where
  "engine_retrieve query segments limit =
     (let query_words = set (py_split (py_lower query));
          (segments1, scored_segments) = score_loop query_words segments [];
          sorted_segments = py_sort_desc relevance_score scored_segments
      in (py_slice_to sorted_segments limit, segments1))"

section \<open>MemoryManager\<close>

record MemoryManager =
  active_memory :: "(string, ContextSegment) dict"
  working_memory :: "(string, ContextSegment) dict"
  long_term_memory :: "(string, ContextSegment) dict"

definition new_MemoryManager :: MemoryManager where
  "new_MemoryManager = \<lparr> active_memory = [], working_memory = [], long_term_memory = [] \<rparr>"

definition store :: "MemoryManager \<Rightarrow> string \<Rightarrow> ContextSegment \<Rightarrow> error + string \<times> MemoryManager" where
  "store mm tier segment =
     (if tier = ACTIVE then
        Inr (id' segment, mm\<lparr>active_memory := dict_set (active_memory mm) (id' segment) segment\<rparr>)
      else if tier = WORKING then
        Inr (id' segment, mm\<lparr>working_memory := dict_set (working_memory mm) (id' segment) segment\<rparr>)
      else if tier = LONG_TERM then
        Inr (id' segment, mm\<lparr>long_term_memory := dict_set (long_term_memory mm) (id' segment) segment\<rparr>)
      else Inl (ValueError (''Unknown memory tier: '' @ tier)))"

text \<open>A segment is an object: \<^verbatim>\<open>segment.access_count += 1\<close> changes the value the
  dictionary holds under the key it was read from. \<open>write_object\<close> is that write.\<close>

definition write_object :: "MemoryManager \<Rightarrow> string \<Rightarrow> string \<Rightarrow> ContextSegment \<Rightarrow> MemoryManager" where
  "write_object mm tier k segment =
     (if tier = ACTIVE then mm\<lparr>active_memory := dict_set (active_memory mm) k segment\<rparr>
      else if tier = WORKING then mm\<lparr>working_memory := dict_set (working_memory mm) k segment\<rparr>
      else if tier = LONG_TERM then mm\<lparr>long_term_memory := dict_set (long_term_memory mm) k segment\<rparr>
      else mm)"

definition retrieve :: "MemoryManager \<Rightarrow> string \<Rightarrow> string \<Rightarrow> ContextSegment option \<times> MemoryManager" where
  "retrieve mm tier segment_id =
     (let found =
        (if tier = ACTIVE then Some (dict_get (active_memory mm) segment_id)
         else if tier = WORKING then Some (dict_get (working_memory mm) segment_id)
         else if tier = LONG_TERM then Some (dict_get (long_term_memory mm) segment_id)
         else None)
      in case found of
           None \<Rightarrow> (None, mm)
         | Some None \<Rightarrow> (None, mm)
         | Some (Some segment) \<Rightarrow>
             (let segment1 = segment\<lparr>access_count := access_count segment + 1\<rparr>
              in (Some segment1, write_object mm tier segment_id segment1)))"

definition delete :: "MemoryManager \<Rightarrow> string \<Rightarrow> string \<Rightarrow> bool \<times> MemoryManager" where
  "delete mm tier segment_id =
     (if tier = ACTIVE then
        (let (v, d) = dict_pop (active_memory mm) segment_id in (v \<noteq> None, mm\<lparr>active_memory := d\<rparr>))
      else if tier = WORKING then
        (let (v, d) = dict_pop (working_memory mm) segment_id in (v \<noteq> None, mm\<lparr>working_memory := d\<rparr>))
      else if tier = LONG_TERM then
        (let (v, d) = dict_pop (long_term_memory mm) segment_id in (v \<noteq> None, mm\<lparr>long_term_memory := d\<rparr>))
      else (False, mm))"

definition get_all_segments :: "MemoryManager \<Rightarrow> string \<Rightarrow> ContextSegment list" where
  "get_all_segments mm tier =
     (if tier = ACTIVE then dict_values (active_memory mm)
      else if tier = WORKING then dict_values (working_memory mm)
      else if tier = LONG_TERM then dict_values (long_term_memory mm)
      else [])"

definition get_memory_usage :: "MemoryManager \<Rightarrow> (string \<times> int) list" where
  "get_memory_usage mm =
     [(''active'', int (length (active_memory mm))),
      (''working'', int (length (working_memory mm))),
      (''long_term'', int (length (long_term_memory mm))),
      (''total'', int (length (active_memory mm)) + int (length (working_memory mm))
                  + int (length (long_term_memory mm)))]"

section \<open>ContextManager\<close>

text \<open>The compression and the retrieval engine of a \<^verbatim>\<open>ContextManager\<close> are always the two
  basic engines above, so they are no fields here. An operation returns its result, or
  the exception it raised, and the manager as the operation left it.\<close>

record ContextManager =
  config :: ContextConfig
  memory_manager :: MemoryManager
  metrics :: ContextMetrics
  last_cleanup :: int

definition new_ContextManager :: "ContextConfig \<Rightarrow> int \<Rightarrow> ContextManager" where
  "new_ContextManager cfg now =
     \<lparr> config = cfg, memory_manager = new_MemoryManager,
       metrics = \<lparr> total_segments = 0, active_segments = 0, total_size_bytes = 0,
                   compression_ratio = 1, cache_hit_rate = 0,
                   average_retrieval_time_ms = 0, memory_usage_bytes = 0 \<rparr>,
       last_cleanup = now \<rparr>"

text \<open>\<^verbatim>\<open>score_segment\<close>, the sort key of the optimisation pass. The age in hours is
  \<^verbatim>\<open>(now - timestamp).total_seconds() / 3600\<close>; at an age of exactly minus one hour
  the division \<^verbatim>\<open>1.0 / (1.0 + time_decay)\<close> raises.\<close>

definition score_segment :: "int \<Rightarrow> ContextSegment \<Rightarrow> error + rat" where
  "score_segment now segment =
     (let time_decay = of_int (now - timestamp segment) / 1000000 / 3600 in
      if 1 + time_decay = 0 then Inl ZeroDivisionError
      else Inr (relevance_score segment * (1 / (1 + time_decay)) * of_int (access_count segment)))"

text \<open>\<^verbatim>\<open>list.sort\<close> computes the key of every element before it moves one; a key that
  raises leaves the list as it was.\<close>

fun score_all :: "int \<Rightarrow> ContextSegment list \<Rightarrow> error + rat list" where
  "score_all now [] = Inr []"
| "score_all now (segment # rest) =
     (case score_segment now segment of
        Inl e \<Rightarrow> Inl e
      | Inr k \<Rightarrow> (case score_all now rest of Inl e \<Rightarrow> Inl e | Inr ks \<Rightarrow> Inr (k # ks)))"

text \<open>The loop \<^verbatim>\<open>for segment in move_to_working\<close>.\<close>

fun move_loop :: "MemoryManager \<Rightarrow> ContextSegment list \<Rightarrow> (error + unit) \<times> MemoryManager" where
  "move_loop mm [] = (Inr (), mm)"
| "move_loop mm (segment # rest) =
     (let (deleted, mm1) = delete mm ACTIVE (id' segment) in
      case store mm1 WORKING segment of
        Inl e \<Rightarrow> (Inl e, mm1)
      | Inr (sid, mm2) \<Rightarrow> move_loop mm2 rest)"

definition optimize_active_memory :: "ContextManager \<Rightarrow> int \<Rightarrow> (error + unit) \<times> ContextManager" where
  "optimize_active_memory cm now =
     (let active_segments = get_all_segments (memory_manager cm) ACTIVE in
      case score_all now active_segments of
        Inl e \<Rightarrow> (Inl e, cm)
      | Inr scores \<Rightarrow>
          (let sorted_segments = map fst (py_sort_desc snd (zip active_segments scores));
               n = py_int (of_nat (length sorted_segments) * (6 / 10));
               keep_active = py_slice_to sorted_segments n;
               move_to_working = py_slice_from sorted_segments n;
               (r, mm) = move_loop (memory_manager cm) move_to_working
           in (r, cm\<lparr>memory_manager := mm\<rparr>)))"

definition maybe_optimize_memory :: "ContextManager \<Rightarrow> int \<Rightarrow> (error + unit) \<times> ContextManager" where
  "maybe_optimize_memory cm now =
     (let active_segments = get_all_segments (memory_manager cm) ACTIVE;
          current_size = sum_list (map (\<lambda>segment. int (length (content segment))) active_segments)
      in if current_size > max_context_size (config cm) then optimize_active_memory cm now
         else (Inr (), cm))"

text \<open>\<^verbatim>\<open>add_context\<close>. The identifier \<^verbatim>\<open>_generate_segment_id\<close> returns is the MD5 digest of
  the content and the time of the call; it is the argument \<open>segment_id\<close> here.\<close>

definition add_context ::
  "ContextManager \<Rightarrow> string \<Rightarrow> string \<Rightarrow> (string \<times> string) list \<Rightarrow> int \<Rightarrow>
   (error + string) \<times> ContextManager" where
  "add_context cm segment_id cont meta now =
     (let segment = \<lparr> id' = segment_id, content = cont, metadata = meta, timestamp = now,
                      relevance_score = 1, access_count = 0, compression_ratio = 1 \<rparr>
      in case store (memory_manager cm) ACTIVE segment of
           Inl e \<Rightarrow> (Inl e, cm)
         | Inr (sid, mm1) \<Rightarrow>
             (case maybe_optimize_memory (cm\<lparr>memory_manager := mm1\<rparr>) now of
                (Inl e, cm2) \<Rightarrow> (Inl e, cm2)
              | (Inr u, cm2) \<Rightarrow>
                  (Inr segment_id,
                   cm2\<lparr>metrics := (metrics cm2)
                     \<lparr>total_segments := total_segments (metrics cm2) + 1,
                      active_segments :=
                        int (length (get_all_segments (memory_manager cm2) ACTIVE))\<rparr>\<rparr>)))"

text \<open>\<^verbatim>\<open>retrieve_relevant\<close>. The candidates are the objects the three dictionaries hold, so
  the scores the engine writes are written into the tiers. \<open>elapsed_ms\<close> is the time
  the call measured for itself.\<close>

definition retrieve_relevant ::
  "ContextManager \<Rightarrow> string \<Rightarrow> int \<Rightarrow> rat \<Rightarrow> ContextSegment list \<times> ContextManager" where
  "retrieve_relevant cm query limit elapsed_ms =
     (let mm = memory_manager cm;
          all_segments = get_all_segments mm ACTIVE @ get_all_segments mm WORKING
                         @ get_all_segments mm LONG_TERM;
          (relevant_segments, all1) = engine_retrieve query all_segments limit;
          na = length (active_memory mm);
          nw = length (working_memory mm);
          mm1 = mm\<lparr>active_memory := zip (dict_keys (active_memory mm)) (take na all1),
                   working_memory := zip (dict_keys (working_memory mm)) (take nw (drop na all1)),
                   long_term_memory := zip (dict_keys (long_term_memory mm)) (drop (na + nw) all1)\<rparr>
      in (relevant_segments,
          cm\<lparr>memory_manager := mm1,
             metrics := (metrics cm)\<lparr>average_retrieval_time_ms :=
               average_retrieval_time_ms (metrics cm) * (9 / 10) + elapsed_ms * (1 / 10)\<rparr>\<rparr>))"

fun remove_loop :: "ContextManager \<Rightarrow> string list \<Rightarrow> string \<Rightarrow> bool \<times> ContextManager" where
  "remove_loop cm [] segment_id = (False, cm)"
| "remove_loop cm (tier # rest) segment_id =
     (let (deleted, mm) = delete (memory_manager cm) tier segment_id in
      if deleted then
        (True,
         cm\<lparr>memory_manager := mm,
            metrics := (metrics cm)
              \<lparr>total_segments := total_segments (metrics cm) - 1,
               active_segments := int (length (get_all_segments mm ACTIVE))\<rparr>\<rparr>)
      else remove_loop (cm\<lparr>memory_manager := mm\<rparr>) rest segment_id)"

definition remove_context :: "ContextManager \<Rightarrow> string \<Rightarrow> bool \<times> ContextManager" where
  "remove_context cm segment_id = remove_loop cm [ACTIVE, WORKING, LONG_TERM] segment_id"

text \<open>The search loop of \<^verbatim>\<open>compress_context\<close>: the first tier whose \<^verbatim>\<open>retrieve\<close> finds the
  identifier, with the segment it returned.\<close>

fun find_segment ::
  "MemoryManager \<Rightarrow> string list \<Rightarrow> string \<Rightarrow> (ContextSegment \<times> string) option \<times> MemoryManager" where
  "find_segment mm [] segment_id = (None, mm)"
| "find_segment mm (tier_name # rest) segment_id =
     (case retrieve mm tier_name segment_id of
        (Some segment, mm1) \<Rightarrow> (Some (segment, tier_name), mm1)
      | (None, mm1) \<Rightarrow> find_segment mm1 rest segment_id)"

text \<open>\<^verbatim>\<open>compress_context\<close> assigns \<^verbatim>\<open>segment.content\<close> first and computes the ratio from
  \<^verbatim>\<open>segment.content\<close> afterwards. The two assignments change the object the dictionary
  holds under \<open>segment_id\<close>; \<^verbatim>\<open>store\<close> then assigns it under its own \<^verbatim>\<open>id\<close>.\<close>

definition compress_context :: "ContextManager \<Rightarrow> string \<Rightarrow> (error + bool) \<times> ContextManager" where
  "compress_context cm segment_id =
     (case find_segment (memory_manager cm) [ACTIVE, WORKING, LONG_TERM] segment_id of
        (None, mm1) \<Rightarrow> (Inr False, cm\<lparr>memory_manager := mm1\<rparr>)
      | (Some (segment, tier), mm1) \<Rightarrow>
          (let compressed_content =
                 compress (content segment) (compression_target_ratio (config cm));
               segment1 = segment\<lparr>content := compressed_content\<rparr>;
               segment2 = segment1\<lparr>compression_ratio :=
                 get_compression_ratio (content segment1) compressed_content\<rparr>;
               mm2 = write_object mm1 tier segment_id segment2
           in case store mm2 tier segment2 of
                Inl e \<Rightarrow> (Inl e, cm\<lparr>memory_manager := mm2\<rparr>)
              | Inr (sid, mm3) \<Rightarrow> (Inr True, cm\<lparr>memory_manager := mm3\<rparr>)))"

definition days :: "int \<Rightarrow> int" where
  "days n = n * 86400 * 1000000"

definition cleanup_old_segments :: "ContextManager \<Rightarrow> int \<Rightarrow> ContextManager" where
  "cleanup_old_segments cm now =
     (let cutoff_time = now - days 30;
          long_term_segments = get_all_segments (memory_manager cm) LONG_TERM
      in cm\<lparr>memory_manager :=
           fold (\<lambda>segment mm.
                   if timestamp segment < cutoff_time \<and> access_count segment < 2
                   then snd (delete mm LONG_TERM (id' segment)) else mm)
                long_term_segments (memory_manager cm)\<rparr>)"

section \<open>Notions the statements use\<close>

text \<open>The tier dictionary a tier name selects.\<close>

definition tier_dict :: "MemoryManager \<Rightarrow> string \<Rightarrow> (string, ContextSegment) dict" where
  "tier_dict mm tier =
     (if tier = ACTIVE then active_memory mm
      else if tier = WORKING then working_memory mm
      else if tier = LONG_TERM then long_term_memory mm
      else [])"

text \<open>The segment a search in the order active, working, long-term finds first, as it is
  before the search touches it, and its tier.\<close>

definition locate :: "MemoryManager \<Rightarrow> string \<Rightarrow> (string \<times> ContextSegment) option" where
  "locate mm segment_id =
     (case dict_get (active_memory mm) segment_id of
        Some s \<Rightarrow> Some (ACTIVE, s)
      | None \<Rightarrow>
          (case dict_get (working_memory mm) segment_id of
             Some s \<Rightarrow> Some (WORKING, s)
           | None \<Rightarrow>
               (case dict_get (long_term_memory mm) segment_id of
                  Some s \<Rightarrow> Some (LONG_TERM, s)
                | None \<Rightarrow> None)))"

text \<open>The fields of a located segment after \<^verbatim>\<open>compress_context\<close>.\<close>

definition compressed_segment :: "ContextConfig \<Rightarrow> ContextSegment \<Rightarrow> ContextSegment" where
  "compressed_segment cfg s =
     s\<lparr>access_count := access_count s + 1,
       content := compress (content s) (compression_target_ratio cfg),
       compression_ratio :=
         get_compression_ratio (compress (content s) (compression_target_ratio cfg))
                               (compress (content s) (compression_target_ratio cfg))\<rparr>"

text \<open>A tier dictionary as \<^verbatim>\<open>MemoryManager.store\<close> builds it: no key twice (a \<^verbatim>\<open>dict\<close> has
  none), and every segment under its own \<^verbatim>\<open>id\<close>.\<close>

definition wf_tier :: "(string, ContextSegment) dict \<Rightarrow> bool" where
  "wf_tier d \<longleftrightarrow> distinct (dict_keys d) \<and> map id' (dict_values d) = dict_keys d"

text \<open>The expiry rule in the words of the specification: older than 30 days, and read
  fewer than two times.\<close>

definition expired :: "int \<Rightarrow> ContextSegment \<Rightarrow> bool" where
  "expired now s \<longleftrightarrow> now - timestamp s > days 30 \<and> access_count s < 2"

text \<open>All keys of the three tiers.\<close>

definition all_keys :: "MemoryManager \<Rightarrow> string list" where
  "all_keys mm =
     dict_keys (active_memory mm) @ dict_keys (working_memory mm) @ dict_keys (long_term_memory mm)"

text \<open>The invariant of the tier store: every tier is a dictionary as \<^verbatim>\<open>store\<close> builds
  it, and no key is in two tiers.\<close>

definition store_inv :: "MemoryManager \<Rightarrow> bool" where
  "store_inv mm \<longleftrightarrow>
     wf_tier (active_memory mm) \<and> wf_tier (working_memory mm) \<and> wf_tier (long_term_memory mm)
     \<and> distinct (dict_keys (active_memory mm) @ dict_keys (working_memory mm)
                  @ dict_keys (long_term_memory mm))"

text \<open>The tiers that hold an identifier.\<close>

definition tiers_holding :: "MemoryManager \<Rightarrow> string \<Rightarrow> string list" where
  "tiers_holding mm segment_id =
     filter (\<lambda>tier. segment_id \<in> set (dict_keys (tier_dict mm tier))) [ACTIVE, WORKING, LONG_TERM]"


text \<open>The active segments in the order the optimisation pass sorts them into.\<close>

definition ranked :: "int \<Rightarrow> ContextSegment list \<Rightarrow> ContextSegment list" where
  "ranked now xs =
     (case score_all now xs of
        Inl e \<Rightarrow> xs
      | Inr ks \<Rightarrow> map fst (py_sort_desc snd (zip xs ks)))"

text \<open>The segment \<^verbatim>\<open>add_context\<close> creates.\<close>

definition new_segment ::
  "string \<Rightarrow> string \<Rightarrow> (string \<times> string) list \<Rightarrow> int \<Rightarrow> ContextSegment" where
  "new_segment segment_id cont meta now =
     \<lparr> id' = segment_id, content = cont, metadata = meta, timestamp = now,
       relevance_score = 1, access_count = 0, compression_ratio = 1 \<rparr>"

text \<open>Sequences of controller operations. An \<open>AddContext\<close> carries the identifier the call
  generates; it is fresh when no tier holds it at the time of the call. The observation
  points of a run are the states before the first and after each operation; an operation
  that raises leaves the state it had reached.\<close>

datatype operation =
    AddContext string string "(string \<times> string) list" int
  | OptimizeActive int
  | CompressSegment string
  | RemoveContext string
  | CleanupOldSegments int

fun apply_operation :: "ContextManager \<Rightarrow> operation \<Rightarrow> ContextManager" where
  "apply_operation cm (AddContext segment_id cont meta now) =
     snd (add_context cm segment_id cont meta now)"
| "apply_operation cm (OptimizeActive now) = snd (optimize_active_memory cm now)"
| "apply_operation cm (CompressSegment segment_id) = snd (compress_context cm segment_id)"
| "apply_operation cm (RemoveContext segment_id) = snd (remove_context cm segment_id)"
| "apply_operation cm (CleanupOldSegments now) = cleanup_old_segments cm now"

fun generates_fresh_id :: "ContextManager \<Rightarrow> operation \<Rightarrow> bool" where
  "generates_fresh_id cm (AddContext segment_id cont meta now) =
     (segment_id \<notin> set (all_keys (memory_manager cm)))"
| "generates_fresh_id cm x = True"

fun fresh_ids :: "ContextManager \<Rightarrow> operation list \<Rightarrow> bool" where
  "fresh_ids cm [] = True"
| "fresh_ids cm (x # xs) = (generates_fresh_id cm x \<and> fresh_ids (apply_operation cm x) xs)"

fun observations :: "ContextManager \<Rightarrow> operation list \<Rightarrow> ContextManager list" where
  "observations cm [] = [cm]"
| "observations cm (x # xs) = cm # observations (apply_operation cm x) xs"

text \<open>The retrieval rule in the words of the specification: the lower-cased words of a
  text, the score of a candidate (the share of the query's words its content has), the
  candidates that take part (some word in common), what the call leaves in a candidate,
  and the ranked list before it is cut to the limit.\<close>

definition word_set :: "string \<Rightarrow> string set" where
  "word_set s = set (py_split (py_lower s))"

definition overlap_score :: "string \<Rightarrow> ContextSegment \<Rightarrow> rat" where
  "overlap_score query s =
     of_nat (card (word_set query \<inter> word_set (content s))) / of_nat (card (word_set query))"

definition has_overlap :: "string \<Rightarrow> ContextSegment \<Rightarrow> bool" where
  "has_overlap query s \<longleftrightarrow> word_set query \<inter> word_set (content s) \<noteq> {}"

definition rescored :: "string \<Rightarrow> ContextSegment \<Rightarrow> ContextSegment" where
  "rescored query s = (if has_overlap query s then s\<lparr>relevance_score := overlap_score query s\<rparr> else s)"

definition ranking :: "string \<Rightarrow> ContextSegment list \<Rightarrow> ContextSegment list" where
  "ranking query segments =
     py_sort_desc relevance_score (map (rescored query) (filter (has_overlap query) segments))"

section \<open>Example values\<close>

definition seg0 :: ContextSegment where
  "seg0 = \<lparr> id' = ''a1'', content = ''alpha beta'', metadata = [], timestamp = 0,
            relevance_score = 1, access_count = 0, compression_ratio = 1 \<rparr>"


definition content50 :: string where
  "content50 = ''aaaaaaaaaabbbbbbbbbbccccccccccddddddddddeeeeeeeeee''"

definition cm_example :: ContextManager where
  "cm_example =
     (new_ContextManager (default_config\<lparr>compression_target_ratio := 1 / 2\<rparr>) 0)
       \<lparr>memory_manager := new_MemoryManager
          \<lparr>working_memory :=
             [(''w1'', \<lparr> id' = ''w1'', content = content50,
                        metadata = [], timestamp = 0, relevance_score = 1, access_count = 3,
                        compression_ratio = 1 \<rparr>)]\<rparr>\<rparr>"

definition old_segment :: "string \<Rightarrow> int \<Rightarrow> ContextSegment" where
  "old_segment k n = \<lparr> id' = k, content = ''old notes'', metadata = [], timestamp = 0,
            relevance_score = 1, access_count = n, compression_ratio = 1 \<rparr>"

definition cm_long_term :: ContextManager where
  "cm_long_term =
     (new_ContextManager default_config 0)
       \<lparr>memory_manager := new_MemoryManager
          \<lparr>active_memory := [(''a1'', seg0)],
           long_term_memory := [(''l1'', old_segment ''l1'' 1), (''l2'', old_segment ''l2'' 2)]\<rparr>\<rparr>"

definition example_run :: "operation list" where
  "example_run =
     [AddContext ''s1'' ''first note'' [] 0,
      AddContext ''s2'' ''second note'' [] 1000000,
      CompressSegment ''s2'',
      OptimizeActive 2000000,
      AddContext ''s3'' ''third note'' [] 3000000,
      RemoveContext ''s1'',
      CleanupOldSegments 4000000,
      OptimizeActive 5000000]"


definition cfg10 :: ContextConfig where
  "cfg10 = default_config\<lparr>max_context_size := 10\<rparr>"

definition candidate :: "string \<Rightarrow> string \<Rightarrow> rat \<Rightarrow> ContextSegment" where
  "candidate k c r = \<lparr> id' = k, content = c, metadata = [], timestamp = 0,
       relevance_score = r, access_count = 0, compression_ratio = 1 \<rparr>"

definition candidates :: "ContextSegment list" where
  "candidates =
     [candidate ''a'' ''deep learning'' 1,
      candidate ''b'' ''cooking pasta'' (9 / 10),
      candidate ''c'' ''machine LEARNING basics'' (1 / 4),
      candidate ''d'' ''learning to cook'' 1]"

section \<open>The tier store\<close>

lemma tier_names_distinct:
  "ACTIVE \<noteq> WORKING" "ACTIVE \<noteq> LONG_TERM" "WORKING \<noteq> LONG_TERM"
  "WORKING \<noteq> ACTIVE" "LONG_TERM \<noteq> ACTIVE" "LONG_TERM \<noteq> WORKING"
  by (simp_all add: ACTIVE_def WORKING_def LONG_TERM_def)

lemma store_known_tier:
  "tier = ACTIVE \<or> tier = WORKING \<or> tier = LONG_TERM \<Longrightarrow>
   \<exists>mm1. store mm tier segment = Inr (id' segment, mm1)"
  by (auto simp: store_def)

text \<open>
  Claim C10. A tier name that is none of \<^verbatim>\<open>"active"\<close>, \<^verbatim>\<open>"working"\<close>, \<^verbatim>\<open>"long_term"\<close>
  makes \<^verbatim>\<open>store\<close> raise \<^verbatim>\<open>ValueError\<close>. With the same name \<^verbatim>\<open>retrieve\<close> returns \<^verbatim>\<open>None\<close>,
  \<^verbatim>\<open>delete\<close> returns \<^verbatim>\<open>False\<close> and \<^verbatim>\<open>get_all_segments\<close> returns the empty list; none of
  the three raises, and each leaves the three tiers as they were.
\<close>

theorem unknown_tier_only_store_raises:
  assumes "tier \<noteq> ACTIVE" and "tier \<noteq> WORKING" and "tier \<noteq> LONG_TERM"
  shows "store mm tier segment = Inl (ValueError (''Unknown memory tier: '' @ tier))
       \<and> retrieve mm tier segment_id = (None, mm)
       \<and> delete mm tier segment_id = (False, mm)
       \<and> get_all_segments mm tier = []"
  using assms by (simp add: store_def retrieve_def delete_def get_all_segments_def)

theorem unknown_tier_only_store_raises_witness:
  "store (new_MemoryManager\<lparr>active_memory := [(''a1'', seg0)]\<rparr>) ''archive'' seg0
     = Inl (ValueError ''Unknown memory tier: archive'')
   \<and> retrieve (new_MemoryManager\<lparr>active_memory := [(''a1'', seg0)]\<rparr>) ''archive'' ''a1''
     = (None, new_MemoryManager\<lparr>active_memory := [(''a1'', seg0)]\<rparr>)
   \<and> delete (new_MemoryManager\<lparr>active_memory := [(''a1'', seg0)]\<rparr>) ''archive'' ''a1''
     = (False, new_MemoryManager\<lparr>active_memory := [(''a1'', seg0)]\<rparr>)
   \<and> get_all_segments (new_MemoryManager\<lparr>active_memory := [(''a1'', seg0)]\<rparr>) ''archive'' = []"
  using unknown_tier_only_store_raises
    [of "''archive''" "new_MemoryManager\<lparr>active_memory := [(''a1'', seg0)]\<rparr>" seg0 "''a1''"]
  by (simp add: ACTIVE_def WORKING_def LONG_TERM_def)

section \<open>The compression engine\<close>












section \<open>\<^verbatim>\<open>compress_context\<close>\<close>

lemma dict_get_dict_set: "dict_get (dict_set d k v) k' = (if k' = k then Some v else dict_get d k')"
  by (induction d) (auto simp: dict_get_def)

lemma dict_get_None_iff: "dict_get d k = None \<longleftrightarrow> k \<notin> set (dict_keys d)"
  by (simp add: dict_get_def dict_keys_def map_of_eq_None_iff)

lemma retrieve_miss:
  "dict_get (tier_dict mm tier) segment_id = None \<Longrightarrow> retrieve mm tier segment_id = (None, mm)"
  by (auto simp: retrieve_def tier_dict_def dict_get_def)

lemma retrieve_hit:
  assumes "tier = ACTIVE \<or> tier = WORKING \<or> tier = LONG_TERM"
    and "dict_get (tier_dict mm tier) segment_id = Some s"
  shows "retrieve mm tier segment_id =
           (Some (s\<lparr>access_count := access_count s + 1\<rparr>),
            write_object mm tier segment_id (s\<lparr>access_count := access_count s + 1\<rparr>))"
  using assms by (auto simp: retrieve_def tier_dict_def tier_names_distinct Let_def)

lemma find_segment_locate:
  "find_segment mm [ACTIVE, WORKING, LONG_TERM] segment_id =
     (case locate mm segment_id of
        None \<Rightarrow> (None, mm)
      | Some (tier, s) \<Rightarrow>
          (Some (s\<lparr>access_count := access_count s + 1\<rparr>, tier),
           write_object mm tier segment_id (s\<lparr>access_count := access_count s + 1\<rparr>)))"
proof (cases "dict_get (active_memory mm) segment_id")
  case (Some s)
  then show ?thesis using retrieve_hit[of ACTIVE mm segment_id s]
    by (simp add: locate_def tier_dict_def)
next
  case nA: None
  then have rA: "retrieve mm ACTIVE segment_id = (None, mm)"
    using retrieve_miss[of mm ACTIVE segment_id] by (simp add: tier_dict_def)
  show ?thesis
  proof (cases "dict_get (working_memory mm) segment_id")
    case (Some s)
    then show ?thesis using nA rA retrieve_hit[of WORKING mm segment_id s]
      by (simp add: locate_def tier_dict_def tier_names_distinct)
  next
    case nW: None
    then have rW: "retrieve mm WORKING segment_id = (None, mm)"
      using retrieve_miss[of mm WORKING segment_id] by (simp add: tier_dict_def tier_names_distinct)
    show ?thesis
    proof (cases "dict_get (long_term_memory mm) segment_id")
      case (Some s)
      then show ?thesis using nA rA nW rW retrieve_hit[of LONG_TERM mm segment_id s]
        by (simp add: locate_def tier_dict_def tier_names_distinct)
    next
      case None
      then have "retrieve mm LONG_TERM segment_id = (None, mm)"
        using retrieve_miss[of mm LONG_TERM segment_id] by (simp add: tier_dict_def tier_names_distinct)
      then show ?thesis using nA rA nW rW None by (simp add: locate_def)
    qed
  qed
qed

lemma locate_tier:
  "locate mm segment_id = Some (tier, s) \<Longrightarrow>
   (tier = ACTIVE \<or> tier = WORKING \<or> tier = LONG_TERM) \<and> dict_get (tier_dict mm tier) segment_id = Some s"
  by (auto simp: locate_def tier_dict_def tier_names_distinct split: option.splits)

lemma tier_dict_write_object:
  "tier = ACTIVE \<or> tier = WORKING \<or> tier = LONG_TERM \<Longrightarrow>
   tier_dict (write_object mm tier k s) tier = dict_set (tier_dict mm tier) k s"
  by (auto simp: write_object_def tier_dict_def tier_names_distinct)

lemma store_write_object:
  "tier = ACTIVE \<or> tier = WORKING \<or> tier = LONG_TERM \<Longrightarrow>
   store mm tier s = Inr (id' s, write_object mm tier (id' s) s)"
  by (auto simp: write_object_def store_def tier_names_distinct)

lemma compress_context_located:
  assumes "locate (memory_manager cm) segment_id = Some (tier, s)"
  shows "compress_context cm segment_id =
           (Inr True,
            cm\<lparr>memory_manager :=
              write_object
                (write_object
                  (write_object (memory_manager cm) tier segment_id
                     (s\<lparr>access_count := access_count s + 1\<rparr>))
                  tier segment_id (compressed_segment (config cm) s))
                tier (id' s) (compressed_segment (config cm) s)\<rparr>)"
  using assms locate_tier[OF assms]
  by (simp add: compress_context_def find_segment_locate store_write_object
      compressed_segment_def Let_def del: find_segment.simps)

lemma compress_context_not_located:
  assumes "locate (memory_manager cm) segment_id = None"
  shows "compress_context cm segment_id = (Inr False, cm)"
  using assms
  by (simp add: compress_context_def find_segment_locate del: find_segment.simps)

lemma locate_None_iff:
  "locate mm segment_id = None \<longleftrightarrow>
     segment_id \<notin> set (dict_keys (active_memory mm)) \<and>
     segment_id \<notin> set (dict_keys (working_memory mm)) \<and>
     segment_id \<notin> set (dict_keys (long_term_memory mm))"
  by (auto simp: locate_def dict_get_None_iff[symmetric] split: option.splits)

lemma compress_context_success_iff:
  "fst (compress_context cm segment_id) = Inr True \<longleftrightarrow> locate (memory_manager cm) segment_id \<noteq> None"
proof (cases "locate (memory_manager cm) segment_id")
  case None
  then show ?thesis using compress_context_not_located[of cm segment_id] by simp
next
  case (Some p)
  then show ?thesis using compress_context_located[of cm segment_id "fst p" "snd p"] by simp
qed

lemma get_compression_ratio_same: "get_compression_ratio x x = 1"
  by (simp add: get_compression_ratio_def)

text \<open>
  Claim C8. When the identifier is a key of none of the three tiers, \<^verbatim>\<open>compress_context\<close>
  returns \<^verbatim>\<open>False\<close>, raises nothing, and leaves the manager, so all three tiers with every
  field of every segment, as it was.
\<close>

theorem compress_context_absent_id:
  assumes "segment_id \<notin> set (dict_keys (active_memory (memory_manager cm)))"
    and "segment_id \<notin> set (dict_keys (working_memory (memory_manager cm)))"
    and "segment_id \<notin> set (dict_keys (long_term_memory (memory_manager cm)))"
  shows "compress_context cm segment_id = (Inr False, cm)"
  using assms compress_context_not_located[of cm segment_id] by (simp add: locate_None_iff)

theorem compress_context_absent_id_witness:
  "''zz'' \<notin> set (dict_keys (active_memory (memory_manager cm_long_term)))
   \<and> ''zz'' \<notin> set (dict_keys (working_memory (memory_manager cm_long_term)))
   \<and> ''zz'' \<notin> set (dict_keys (long_term_memory (memory_manager cm_long_term)))
   \<and> compress_context cm_long_term ''zz'' = (Inr False, cm_long_term)"
proof -
  have a: "''zz'' \<notin> set (dict_keys (active_memory (memory_manager cm_long_term)))"
    and w: "''zz'' \<notin> set (dict_keys (working_memory (memory_manager cm_long_term)))"
    and l: "''zz'' \<notin> set (dict_keys (long_term_memory (memory_manager cm_long_term)))"
    by (simp_all add: cm_long_term_def new_MemoryManager_def dict_keys_def)
  from compress_context_absent_id[OF a w l] a w l show ?thesis by simp
qed

text \<open>
  Claim C9. A call of \<^verbatim>\<open>compress_context\<close> that returns \<^verbatim>\<open>True\<close> has located a segment, and
  afterwards the tier it was found in holds, under the identifier, a segment whose
  \<^verbatim>\<open>access_count\<close> is the located segment's plus one: the search goes through
  \<^verbatim>\<open>MemoryManager.retrieve\<close>, which counts the read.
\<close>

theorem compress_context_counts_access:
  assumes "fst (compress_context cm segment_id) = Inr True"
  shows "\<exists>tier s s1.
           locate (memory_manager cm) segment_id = Some (tier, s)
         \<and> dict_get (tier_dict (memory_manager (snd (compress_context cm segment_id))) tier) segment_id = Some s1
         \<and> access_count s1 = access_count s + 1"
proof (cases "locate (memory_manager cm) segment_id")
  case None
  then show ?thesis using assms compress_context_not_located[of cm segment_id] by simp
next
  case (Some p)
  obtain tier s where p: "p = (tier, s)" by (cases p)
  have loc: "locate (memory_manager cm) segment_id = Some (tier, s)" using Some p by simp
  have t: "tier = ACTIVE \<or> tier = WORKING \<or> tier = LONG_TERM" using locate_tier[OF loc] by simp
  have "dict_get (tier_dict (memory_manager (snd (compress_context cm segment_id))) tier) segment_id
          = Some (compressed_segment (config cm) s)"
    using t by (simp add: compress_context_located[OF loc] tier_dict_write_object dict_get_dict_set)
  moreover have "access_count (compressed_segment (config cm) s) = access_count s + 1"
    by (simp add: compressed_segment_def)
  ultimately show ?thesis using loc by blast
qed

theorem compress_context_counts_access_witness:
  "fst (compress_context cm_example ''w1'') = Inr True
   \<and> map (\<lambda>(k, s). (k, access_count s)) (working_memory (memory_manager cm_example)) = [(''w1'', 3)]
   \<and> map (\<lambda>(k, s). (k, access_count s))
        (working_memory (memory_manager (snd (compress_context cm_example ''w1'')))) = [(''w1'', 4)]"
proof -
  have ok: "fst (compress_context cm_example ''w1'') = Inr True" by code_simp
  have loc: "locate (memory_manager cm_example) ''w1''
      = Some (WORKING, snd (hd (working_memory (memory_manager cm_example))))"
    by (simp add: locate_def cm_example_def new_MemoryManager_def dict_get_def)
  have before: "map (\<lambda>(k, s). (k, access_count s)) (working_memory (memory_manager cm_example)) = [(''w1'', 3)]"
    by (simp add: cm_example_def)
  have keys: "map fst (working_memory (memory_manager (snd (compress_context cm_example ''w1'')))) = [''w1'']"
    by code_simp
  from compress_context_counts_access[OF ok] loc
  obtain s1 where s1: "dict_get (tier_dict (memory_manager (snd (compress_context cm_example ''w1''))) WORKING) ''w1'' = Some s1"
    "access_count s1 = access_count (snd (hd (working_memory (memory_manager cm_example)))) + 1"
    by auto
  have "access_count s1 = 4" using s1(2) by (simp add: cm_example_def)
  moreover obtain s2 where s2: "working_memory (memory_manager (snd (compress_context cm_example ''w1''))) = [(''w1'', s2)]"
    using keys by (cases "working_memory (memory_manager (snd (compress_context cm_example ''w1'')))") auto
  ultimately show ?thesis using ok before s1(1) s2
    by (simp add: tier_dict_def tier_names_distinct dict_get_def)
qed

text \<open>
  Claim C1 says that after a successful \<^verbatim>\<open>compress_context\<close> the segment's
  \<^verbatim>\<open>compression_ratio\<close> is the length of the compressed content over the length of the
  original content. The code assigns \<^verbatim>\<open>segment.content = compressed_content\<close> before it
  calls \<^verbatim>\<open>get_compression_ratio(segment.content, compressed_content)\<close>, so it divides the
  compressed length by itself. Here a segment of 50 characters is compressed at the ratio
  0.5 to 42 characters: the ratio stored is 1, and the ratio of the two lengths is 21/25.
\<close>

theorem compression_ratio_is_one_after_compress:
  "fst (compress_context cm_example ''w1'') = Inr True
   \<and> map (\<lambda>(k, s). (k, length (content s), ContextSegment.compression_ratio s))
        (working_memory (memory_manager (snd (compress_context cm_example ''w1''))))
       = [(''w1'', 42, 1)]
   \<and> map (\<lambda>(k, s). length (content s)) (working_memory (memory_manager cm_example)) = [50]
   \<and> get_compression_ratio content50 (compress content50 (1 / 2)) = 21 / 25"
  by code_simp

section \<open>\<^verbatim>\<open>_cleanup_old_segments\<close>\<close>

lemma wf_tier_id: "wf_tier d \<Longrightarrow> (k, s) \<in> set d \<Longrightarrow> id' s = k"
proof -
  assume w: "wf_tier d" and m: "(k, s) \<in> set d"
  from w have "map (\<lambda>p. id' (snd p)) d = map fst d"
    by (simp add: wf_tier_def dict_values_def dict_keys_def comp_def)
  then have "\<forall>p \<in> set d. id' (snd p) = fst p" by (simp only: map_eq_conv)
  with m show ?thesis by force
qed

lemma wf_tier_unique: "wf_tier d \<Longrightarrow> (k, s) \<in> set d \<Longrightarrow> (k, s1) \<in> set d \<Longrightarrow> s = s1"
  by (metis wf_tier_def dict_keys_def eq_key_imp_eq_value)

lemma cleanup_fold:
  "fold (\<lambda>segment mm. if P segment then snd (delete mm LONG_TERM (id' segment)) else mm) segs mm
     = mm\<lparr>long_term_memory :=
            filter (\<lambda>p. fst p \<notin> id' ` {s \<in> set segs. P s}) (long_term_memory mm)\<rparr>"
proof (induction segs arbitrary: mm)
  case Nil
  show ?case by simp
next
  case (Cons a segs)
  show ?case
  proof (cases "P a")
    case True
    have eq: "(\<lambda>p. fst p \<noteq> id' a \<and> fst p \<notin> id' ` {s \<in> set segs. P s})
                = (\<lambda>p. fst p \<notin> id' ` {s \<in> set (a # segs). P s})"
      using True by auto
    have "filter (\<lambda>p. fst p \<notin> id' ` {s \<in> set segs. P s}) (filter (\<lambda>p. fst p \<noteq> id' a) (long_term_memory mm))
            = filter (\<lambda>p. fst p \<notin> id' ` {s \<in> set (a # segs). P s}) (long_term_memory mm)"
      by (simp only: filter_filter eq)
    with True show ?thesis
      by (simp add: Cons.IH delete_def dict_pop_def tier_names_distinct del: filter_filter)
  next
    case False
    then have "{s \<in> set (a # segs). P s} = {s \<in> set segs. P s}" by auto
    with False show ?thesis by (simp add: Cons.IH)
  qed
qed

text \<open>
  Claim C7. \<^verbatim>\<open>_cleanup_old_segments\<close> removes from the long-term tier exactly the segments
  that are older than 30 days and were read fewer than two times; a segment read two times
  or more stays whatever its age; the active and the working tier are unchanged. (The
  long-term tier is a dictionary built by \<^verbatim>\<open>store\<close>: \<open>wf_tier\<close>.)
\<close>

theorem cleanup_removes_exactly_expired:
  assumes "wf_tier (long_term_memory (memory_manager cm))"
  shows "long_term_memory (memory_manager (cleanup_old_segments cm now))
           = filter (\<lambda>(k, s). \<not> expired now s) (long_term_memory (memory_manager cm))
       \<and> active_memory (memory_manager (cleanup_old_segments cm now)) = active_memory (memory_manager cm)
       \<and> working_memory (memory_manager (cleanup_old_segments cm now)) = working_memory (memory_manager cm)"
proof -
  let ?d = "long_term_memory (memory_manager cm)"
  let ?P = "\<lambda>s. timestamp s < now - days 30 \<and> access_count s < 2"
  have P: "\<And>s. ?P s = expired now s" by (auto simp: expired_def)
  have "filter (\<lambda>p. fst p \<notin> id' ` {s \<in> set (dict_values ?d). ?P s}) ?d
          = filter (\<lambda>(k, s). \<not> expired now s) ?d"
  proof (rule filter_cong[OF refl])
    fix p assume m: "p \<in> set ?d"
    obtain k s where p: "p = (k, s)" by (cases p)
    have ks: "id' s = k" using wf_tier_id[OF assms] m p by simp
    show "(fst p \<notin> id' ` {s \<in> set (dict_values ?d). ?P s}) = (case p of (k, s) \<Rightarrow> \<not> expired now s)"
    proof (cases "expired now s")
      case True
      then have "s \<in> {s \<in> set (dict_values ?d). ?P s}" using m p P by (force simp: dict_values_def)
      then have "k \<in> id' ` {s \<in> set (dict_values ?d). ?P s}" using ks by blast
      then show ?thesis using True p by simp
    next
      case False
      have "k \<notin> id' ` {s \<in> set (dict_values ?d). ?P s}"
      proof
        assume "k \<in> id' ` {s \<in> set (dict_values ?d). ?P s}"
        then obtain s1 where s1: "s1 \<in> set (dict_values ?d)" "?P s1" "id' s1 = k" by auto
        then obtain k1 where k1: "(k1, s1) \<in> set ?d" by (auto simp: dict_values_def)
        then have "k1 = k" using wf_tier_id[OF assms k1] s1 by simp
        then have "s1 = s" using wf_tier_unique[OF assms] k1 m p by blast
        then show False using s1 False P by simp
      qed
      then show ?thesis using False p by simp
    qed
  qed
  then show ?thesis
    by (simp add: cleanup_old_segments_def Let_def cleanup_fold get_all_segments_def tier_names_distinct)
qed

theorem cleanup_removes_exactly_expired_witness:
  "wf_tier (long_term_memory (memory_manager cm_long_term))
   \<and> expired (days 31) (old_segment ''l1'' 1)
   \<and> \<not> expired (days 31) (old_segment ''l2'' 2)
   \<and> long_term_memory (memory_manager (cleanup_old_segments cm_long_term (days 31)))
       = [(''l2'', old_segment ''l2'' 2)]
   \<and> active_memory (memory_manager (cleanup_old_segments cm_long_term (days 31))) = [(''a1'', seg0)]
   \<and> working_memory (memory_manager (cleanup_old_segments cm_long_term (days 31))) = []"
proof -
  have w: "wf_tier (long_term_memory (memory_manager cm_long_term))"
    by (simp add: wf_tier_def cm_long_term_def old_segment_def dict_keys_def dict_values_def)
  have e: "expired (days 31) (old_segment ''l1'' 1)" "\<not> expired (days 31) (old_segment ''l2'' 2)"
    by (simp_all add: expired_def old_segment_def days_def)
  show ?thesis
    using cleanup_removes_exactly_expired[OF w, of "days 31"] w e
    by (simp add: cm_long_term_def new_MemoryManager_def)
qed

section \<open>The invariant of the tier store\<close>

lemma dict_keys_dict_set:
  "dict_keys (dict_set d k v) = (if k \<in> set (dict_keys d) then dict_keys d else dict_keys d @ [k])"
  by (induction d) (auto simp: dict_keys_def)

lemma dict_values_dict_set_id:
  "map f (dict_values d) = dict_keys d \<Longrightarrow> f v = k \<Longrightarrow>
   map f (dict_values (dict_set d k v)) = dict_keys (dict_set d k v)"
  by (induction d) (auto simp: dict_keys_def dict_values_def)

lemma wf_tier_dict_set: "wf_tier d \<Longrightarrow> id' s = k \<Longrightarrow> wf_tier (dict_set d k s)"
  by (auto simp: wf_tier_def dict_values_dict_set_id) (simp_all add: dict_keys_dict_set)

lemma wf_tier_filter: "wf_tier d \<Longrightarrow> wf_tier (filter P d)"
proof -
  assume w: "wf_tier d"
  then have a: "distinct (map fst (filter P d))" by (simp add: wf_tier_def dict_keys_def distinct_map_filter)
  from w have "map (\<lambda>p. id' (snd p)) d = map fst d"
    by (simp add: wf_tier_def dict_values_def dict_keys_def comp_def)
  then have "\<forall>p \<in> set d. id' (snd p) = fst p" by (simp only: map_eq_conv)
  then have "map (\<lambda>p. id' (snd p)) (filter P d) = map fst (filter P d)" by simp
  with a show ?thesis by (simp add: wf_tier_def dict_values_def dict_keys_def comp_def)
qed

lemma set_keys_filter: "set (dict_keys (filter P d)) \<subseteq> set (dict_keys d)"
  by (auto simp: dict_keys_def)

lemma wf_tier_Nil: "wf_tier []"
  by (simp add: wf_tier_def dict_keys_def dict_values_def)

lemma store_inv_new: "store_inv new_MemoryManager"
  by (simp add: store_inv_def new_MemoryManager_def wf_tier_Nil dict_keys_def)

lemma store_inv_sets:
  "store_inv mm \<longleftrightarrow>
     wf_tier (active_memory mm) \<and> wf_tier (working_memory mm) \<and> wf_tier (long_term_memory mm)
     \<and> set (dict_keys (active_memory mm)) \<inter> set (dict_keys (working_memory mm)) = {}
     \<and> set (dict_keys (active_memory mm)) \<inter> set (dict_keys (long_term_memory mm)) = {}
     \<and> set (dict_keys (working_memory mm)) \<inter> set (dict_keys (long_term_memory mm)) = {}"
  by (auto simp: store_inv_def wf_tier_def)

lemma store_inv_holding: "store_inv mm \<Longrightarrow> length (tiers_holding mm segment_id) \<le> 1"
  by (auto simp: store_inv_sets tiers_holding_def tier_dict_def tier_names_distinct)

text \<open>delete\<close>

lemma store_inv_delete: "store_inv mm \<Longrightarrow> store_inv (snd (delete mm tier k))"
  using set_keys_filter[of "\<lambda>p. fst p \<noteq> k"]
  by (auto simp: store_inv_sets delete_def dict_pop_def wf_tier_filter
      dest!: subsetD[OF set_keys_filter])

text \<open>write_object on a key that is there\<close>

lemma store_inv_write_object:
  assumes "store_inv mm" and "k \<in> set (dict_keys (tier_dict mm tier))" and "id' s = k"
  shows "store_inv (write_object mm tier k s)"
  using assms
  by (auto simp: store_inv_sets write_object_def tier_dict_def wf_tier_dict_set dict_keys_dict_set
      split: if_splits)

lemma tier_dict_keys_write_object:
  "k \<in> set (dict_keys (tier_dict mm tier)) \<Longrightarrow>
   dict_keys (tier_dict (write_object mm tier k s) tier1) = dict_keys (tier_dict mm tier1)"
  by (auto simp: write_object_def tier_dict_def dict_keys_dict_set tier_names_distinct split: if_splits)


lemma move_loop_eq:
  "move_loop mm ms =
     (Inr (), mm\<lparr>active_memory := filter (\<lambda>p. fst p \<notin> id' ` set ms) (active_memory mm),
                 working_memory := fold (\<lambda>s d. dict_set d (id' s) s) ms (working_memory mm)\<rparr>)"
proof (induction ms arbitrary: mm)
  case Nil
  show ?case by simp
next
  case (Cons a ms)
  have f: "filter (\<lambda>p. fst p \<notin> id' ` set ms) (filter (\<lambda>p. fst p \<noteq> id' a) (active_memory mm))
         = filter (\<lambda>p. fst p \<notin> id' ` set (a # ms)) (active_memory mm)"
    by (simp only: filter_filter) (rule filter_cong, auto)
  show ?case
    using f by (simp add: Cons.IH delete_def dict_pop_def store_def tier_names_distinct del: filter_filter)
qed

lemma set_keys_fold_set:
  "set (dict_keys (fold (\<lambda>s d. dict_set d (id' s) s) ms d)) = set (dict_keys d) \<union> id' ` set ms"
  by (induction ms arbitrary: d) (auto simp: dict_keys_dict_set)

lemma wf_tier_fold_set:
  "wf_tier d \<Longrightarrow> wf_tier (fold (\<lambda>s d. dict_set d (id' s) s) ms d)"
  by (induction ms arbitrary: d) (auto simp: wf_tier_dict_set)

lemma set_keys_filter_notin:
  "set (dict_keys (filter (\<lambda>p. fst p \<notin> M) d)) = set (dict_keys d) - M"
  by (auto simp: dict_keys_def)

lemma wf_tier_value_key: "wf_tier d \<Longrightarrow> s \<in> set (dict_values d) \<Longrightarrow> id' s \<in> set (dict_keys d)"
  using wf_tier_id[of d] by (force simp: dict_values_def dict_keys_def)

lemma store_inv_move_loop:
  assumes "store_inv mm" and "set ms \<subseteq> set (dict_values (active_memory mm))"
  shows "store_inv (snd (move_loop mm ms))"
proof -
  have M: "id' ` set ms \<subseteq> set (dict_keys (active_memory mm))"
    using assms wf_tier_value_key[of "active_memory mm"] by (auto simp: store_inv_sets)
  show ?thesis
    using assms(1) M
    by (auto simp: move_loop_eq store_inv_sets wf_tier_filter wf_tier_fold_set
        set_keys_fold_set set_keys_filter_notin)
qed

lemma score_all_length: "score_all now xs = Inr ks \<Longrightarrow> length ks = length xs"
  by (induction xs arbitrary: ks) (auto split: sum.splits)

lemma sorted_segments_mset:
  assumes "length ks = length xs"
  shows "mset (map fst (py_sort_desc snd (zip xs ks))) = mset xs"
proof -
  have "mset (map fst (py_sort_desc snd (zip xs ks))) = image_mset fst (mset (zip xs ks))"
    by (simp add: py_sort_desc_def)
  also have "\<dots> = mset (map fst (zip xs ks))" by simp
  also have "\<dots> = mset xs" using assms by simp
  finally show ?thesis .
qed

lemma set_py_slice_from: "set (py_slice_from xs n) \<subseteq> set xs"
  by (auto simp: py_slice_from_def dest: in_set_dropD)

lemma py_int_keep_active: "py_int (of_nat n * (6 / 10)) = int ((3 * n) div 5)"
proof -
  have "(of_nat n * (6 / 10) :: rat) = of_int (int (3 * n)) / of_int 5" by simp
  then have "\<lfloor>of_nat n * (6 / 10) :: rat\<rfloor> = int (3 * n) div 5"
    by (simp only: floor_divide_of_int_eq)
  moreover have "(0::rat) \<le> of_nat n * (6 / 10)" by simp
  ultimately show ?thesis by (simp add: py_int_def zdiv_int)
qed

text \<open>The optimisation pass, in one equation.\<close>

lemma optimize_active_memory_eq:
  "optimize_active_memory cm now =
     (case score_all now (dict_values (active_memory (memory_manager cm))) of
        Inl e \<Rightarrow> (Inl e, cm)
      | Inr ks \<Rightarrow>
          (Inr (),
           cm\<lparr>memory_manager :=
             snd (move_loop (memory_manager cm)
                    (drop ((3 * length (active_memory (memory_manager cm))) div 5)
                       (ranked now (dict_values (active_memory (memory_manager cm))))))\<rparr>))"
proof (cases "score_all now (dict_values (active_memory (memory_manager cm)))")
  case (Inl e)
  then show ?thesis by (simp add: optimize_active_memory_def get_all_segments_def)
next
  case (Inr ks)
  have len: "length ks = length (active_memory (memory_manager cm))"
    using score_all_length[OF Inr] by (simp add: dict_values_def)
  have l2: "length (dict_values (active_memory (memory_manager cm))) = length (active_memory (memory_manager cm))"
    by (simp add: dict_values_def)
  show ?thesis
    unfolding optimize_active_memory_def Let_def py_int_keep_active
    using Inr len l2
    by (simp add: get_all_segments_def py_sort_desc_def py_slice_from_def ranked_def move_loop_eq)
qed

lemma ranked_mset: "mset (ranked now xs) = mset xs"
proof (cases "score_all now xs")
  case (Inl e)
  then show ?thesis by (simp add: ranked_def)
next
  case (Inr ks)
  then show ?thesis using sorted_segments_mset[OF score_all_length[OF Inr]] by (simp add: ranked_def)
qed

lemma store_inv_optimize:
  assumes "store_inv (memory_manager cm)"
  shows "store_inv (memory_manager (snd (optimize_active_memory cm now)))"
proof (cases "score_all now (dict_values (active_memory (memory_manager cm)))")
  case (Inl e)
  then show ?thesis using assms by (simp add: optimize_active_memory_eq)
next
  case (Inr ks)
  let ?xs = "dict_values (active_memory (memory_manager cm))"
  have "set (ranked now ?xs) = set ?xs" using ranked_mset[of now ?xs] by (metis set_mset_mset)
  then have "set (drop ((3 * length (active_memory (memory_manager cm))) div 5) (ranked now ?xs)) \<subseteq> set ?xs"
    using set_drop_subset by fastforce
  then show ?thesis using Inr store_inv_move_loop[OF assms] by (simp add: optimize_active_memory_eq)
qed

lemma store_inv_maybe_optimize:
  "store_inv (memory_manager cm) \<Longrightarrow> store_inv (memory_manager (snd (maybe_optimize_memory cm now)))"
  by (simp add: maybe_optimize_memory_def Let_def store_inv_optimize)

lemma store_inv_add_context:
  assumes "store_inv (memory_manager cm)" and "segment_id \<notin> set (all_keys (memory_manager cm))"
  shows "store_inv (memory_manager (snd (add_context cm segment_id cont meta now)))"
proof -
  let ?seg = "\<lparr> id' = segment_id, content = cont, metadata = meta, timestamp = now,
                 relevance_score = 1, access_count = 0, compression_ratio = 1 \<rparr>"
  let ?mm1 = "(memory_manager cm)\<lparr>active_memory := dict_set (active_memory (memory_manager cm)) segment_id ?seg\<rparr>"
  have s: "store (memory_manager cm) ACTIVE ?seg = Inr (segment_id, ?mm1)" by (simp add: store_def)
  have i1: "store_inv ?mm1"
    using assms by (auto simp: store_inv_sets all_keys_def wf_tier_dict_set dict_keys_dict_set)
  have i2: "store_inv (memory_manager (snd (maybe_optimize_memory (cm\<lparr>memory_manager := ?mm1\<rparr>) now)))"
    using store_inv_maybe_optimize[of "cm\<lparr>memory_manager := ?mm1\<rparr>" now] i1 by simp
  show ?thesis
    using i2 by (auto simp: add_context_def Let_def s split: prod.splits sum.splits)
qed

lemma store_inv_compress_context:
  assumes "store_inv (memory_manager cm)"
  shows "store_inv (memory_manager (snd (compress_context cm segment_id)))"
proof (cases "locate (memory_manager cm) segment_id")
  case None
  then show ?thesis using assms by (simp add: compress_context_not_located)
next
  case (Some p)
  obtain tier s where p: "p = (tier, s)" by (cases p)
  have loc: "locate (memory_manager cm) segment_id = Some (tier, s)" using Some p by simp
  note lt = locate_tier[OF loc]
  have k: "segment_id \<in> set (dict_keys (tier_dict (memory_manager cm) tier))"
    using lt dict_get_None_iff[of "tier_dict (memory_manager cm) tier" segment_id] by auto
  have wft: "wf_tier (tier_dict (memory_manager cm) tier)"
    using assms lt by (auto simp: store_inv_sets tier_dict_def)
  have ids: "id' s = segment_id"
    using lt wft wf_tier_id[of "tier_dict (memory_manager cm) tier" segment_id s]
    by (simp add: dict_get_def map_of_SomeD)
  let ?m1 = "write_object (memory_manager cm) tier segment_id (s\<lparr>access_count := access_count s + 1\<rparr>)"
  let ?m2 = "write_object ?m1 tier segment_id (compressed_segment (config cm) s)"
  have 1: "store_inv ?m1" using store_inv_write_object[OF assms k] ids by simp
  have k1: "segment_id \<in> set (dict_keys (tier_dict ?m1 tier))"
    using k by (simp add: tier_dict_keys_write_object)
  have 2: "store_inv ?m2" using store_inv_write_object[OF 1 k1] ids by (simp add: compressed_segment_def)
  have k2: "segment_id \<in> set (dict_keys (tier_dict ?m2 tier))"
    using k1 by (simp add: tier_dict_keys_write_object)
  have 3: "store_inv (write_object ?m2 tier segment_id (compressed_segment (config cm) s))"
    using store_inv_write_object[OF 2 k2] ids by (simp add: compressed_segment_def)
  show ?thesis using 3 ids by (simp add: compress_context_located[OF loc])
qed

lemma store_inv_remove_loop:
  "store_inv (memory_manager cm) \<Longrightarrow> store_inv (memory_manager (snd (remove_loop cm tiers segment_id)))"
proof (induction tiers arbitrary: cm)
  case Nil
  then show ?case by simp
next
  case (Cons t tiers)
  have d: "store_inv (snd (delete (memory_manager cm) t segment_id))"
    using store_inv_delete[OF Cons.prems] .
  show ?case
  proof (cases "fst (delete (memory_manager cm) t segment_id)")
    case True
    then show ?thesis using d by (simp add: split_beta)
  next
    case False
    then show ?thesis
      using Cons.IH[of "cm\<lparr>memory_manager := snd (delete (memory_manager cm) t segment_id)\<rparr>"] d
      by (simp add: split_beta)
  qed
qed

lemma store_inv_remove_context:
  "store_inv (memory_manager cm) \<Longrightarrow> store_inv (memory_manager (snd (remove_context cm segment_id)))"
  unfolding remove_context_def by (rule store_inv_remove_loop)

lemma store_inv_cleanup:
  "store_inv (memory_manager cm) \<Longrightarrow> store_inv (memory_manager (cleanup_old_segments cm now))"
  using set_keys_filter
  by (auto simp: cleanup_old_segments_def Let_def cleanup_fold store_inv_sets wf_tier_filter
      dest!: subsetD[OF set_keys_filter])


section \<open>One tier per segment\<close>

lemma store_inv_apply_operation:
  assumes "store_inv (memory_manager cm)" and "generates_fresh_id cm x"
  shows "store_inv (memory_manager (apply_operation cm x))"
  using assms
  by (cases x)
    (simp_all add: store_inv_add_context store_inv_optimize store_inv_compress_context
      store_inv_remove_context store_inv_cleanup)

lemma store_inv_observations:
  "store_inv (memory_manager cm) \<Longrightarrow> fresh_ids cm xs \<Longrightarrow>
   \<forall>cm1 \<in> set (observations cm xs). store_inv (memory_manager cm1)"
proof (induction xs arbitrary: cm)
  case Nil
  then show ?case by simp
next
  case (Cons x xs)
  then show ?case using store_inv_apply_operation[of cm x] by simp
qed

lemma last_observation: "last (observations cm xs) \<in> set (observations cm xs)"
  by (cases xs) simp_all

text \<open>
  Claim C4. Start from a new manager and run any sequence of \<^verbatim>\<open>add_context\<close>,
  \<^verbatim>\<open>_optimize_active_memory\<close>, \<^verbatim>\<open>compress_context\<close>, \<^verbatim>\<open>remove_context\<close> and
  \<^verbatim>\<open>_cleanup_old_segments\<close> in which every generated identifier is fresh. Then at every
  observation point every identifier is held by at most one of the three tiers.
\<close>

theorem one_tier_per_segment_id:
  assumes "fresh_ids (new_ContextManager cfg t0) xs"
  shows "\<forall>cm \<in> set (observations (new_ContextManager cfg t0) xs).
           \<forall>segment_id. length (tiers_holding (memory_manager cm) segment_id) \<le> 1"
proof -
  have "store_inv (memory_manager (new_ContextManager cfg t0))"
    by (simp add: new_ContextManager_def store_inv_new)
  from store_inv_observations[OF this assms] show ?thesis
    using store_inv_holding by blast
qed

theorem one_tier_per_segment_id_witness:
  "fresh_ids (new_ContextManager (default_config\<lparr>max_context_size := 15\<rparr>) 0) example_run
   \<and> length (tiers_holding (memory_manager
        (last (observations (new_ContextManager (default_config\<lparr>max_context_size := 15\<rparr>) 0) example_run))) ''s2'') \<le> 1
   \<and> tiers_holding (memory_manager
        (last (observations (new_ContextManager (default_config\<lparr>max_context_size := 15\<rparr>) 0) example_run))) ''s2'' = [''working'']"
proof -
  let ?cm0 = "new_ContextManager (default_config\<lparr>max_context_size := 15\<rparr>) 0"
  have f: "fresh_ids ?cm0 example_run" by code_simp
  have m: "last (observations ?cm0 example_run) \<in> set (observations ?cm0 example_run)"
    by (rule last_observation)
  from one_tier_per_segment_id[OF f] m
  have "length (tiers_holding (memory_manager (last (observations ?cm0 example_run))) ''s2'') \<le> 1"
    by blast
  moreover have "tiers_holding (memory_manager (last (observations ?cm0 example_run))) ''s2'' = [''working'']"
    by code_simp
  ultimately show ?thesis using f by simp
qed


section \<open>The optimisation pass\<close>

lemma score_segment_unread:
  assumes "access_count s = 0" and "timestamp s \<le> now"
  shows "score_segment now s = Inr 0"
proof -
  have "(0::rat) \<le> of_int (now - timestamp s) / 1000000 / 3600" using assms by simp
  then have "1 + (of_int (now - timestamp s) :: rat) / 1000000 / 3600 \<noteq> 0" by linarith
  then show ?thesis using assms by (simp add: score_segment_def Let_def)
qed

text \<open>
  Claim C6. With \<^verbatim>\<open>max_context_size = 10\<close>, two segments of six characters each are added
  (with different identifiers, the clock not running backwards). The first stays alone in
  the active tier. At the second the active content has 12 characters, more than the
  budget, so the optimisation pass runs inside \<^verbatim>\<open>add_context\<close>: one segment remains
  active, the other is in the working tier.
\<close>

theorem two_segments_over_budget:
  assumes "max_context_size cfg = 10" and "length c1 = 6" and "length c2 = 6"
    and "sid1 \<noteq> sid2" and "now1 \<le> now2"
  shows "fst (add_context (new_ContextManager cfg t0) sid1 c1 m1 now1) = Inr sid1
       \<and> fst (add_context (snd (add_context (new_ContextManager cfg t0) sid1 c1 m1 now1)) sid2 c2 m2 now2) = Inr sid2
       \<and> active_memory (memory_manager (snd (add_context (new_ContextManager cfg t0) sid1 c1 m1 now1)))
           = [(sid1, new_segment sid1 c1 m1 now1)]
       \<and> active_memory (memory_manager
            (snd (add_context (snd (add_context (new_ContextManager cfg t0) sid1 c1 m1 now1)) sid2 c2 m2 now2)))
           = [(sid1, new_segment sid1 c1 m1 now1)]
       \<and> working_memory (memory_manager
            (snd (add_context (snd (add_context (new_ContextManager cfg t0) sid1 c1 m1 now1)) sid2 c2 m2 now2)))
           = [(sid2, new_segment sid2 c2 m2 now2)]
       \<and> long_term_memory (memory_manager
            (snd (add_context (snd (add_context (new_ContextManager cfg t0) sid1 c1 m1 now1)) sid2 c2 m2 now2)))
           = []"
proof -
  let ?s1 = "new_segment sid1 c1 m1 now1"
  let ?s2 = "new_segment sid2 c2 m2 now2"
  let ?cm0 = "new_ContextManager cfg t0"
  define cm1 where "cm1 = ?cm0\<lparr>memory_manager := new_MemoryManager\<lparr>active_memory := [(sid1, ?s1)]\<rparr>,
     metrics := (metrics ?cm0)\<lparr>total_segments := 1, active_segments := 1\<rparr>\<rparr>"
  have a1: "add_context ?cm0 sid1 c1 m1 now1 = (Inr sid1, cm1)"
    using assms
    by (simp add: add_context_def store_def maybe_optimize_memory_def get_all_segments_def
        dict_values_def new_ContextManager_def new_MemoryManager_def new_segment_def cm1_def Let_def)
  define cmS where "cmS = cm1\<lparr>memory_manager := new_MemoryManager\<lparr>active_memory := [(sid1, ?s1), (sid2, ?s2)]\<rparr>\<rparr>"
  have cfg1: "max_context_size (config cmS) = 10" using assms by (simp add: cmS_def cm1_def new_ContextManager_def)
  have sc: "score_all now2 [?s1, ?s2] = Inr [0, 0]"
    using assms score_segment_unread[of ?s1 now2] score_segment_unread[of ?s2 now2]
    by (simp add: new_segment_def)
  have rk: "ranked now2 [?s1, ?s2] = [?s1, ?s2]" using sc by (simp add: ranked_def py_sort_desc_def)
  have opt: "optimize_active_memory cmS now2 =
      (Inr (), cmS\<lparr>memory_manager := new_MemoryManager\<lparr>active_memory := [(sid1, ?s1)], working_memory := [(sid2, ?s2)]\<rparr>\<rparr>)"
    using assms sc rk
    by (simp add: optimize_active_memory_eq cmS_def dict_values_def move_loop_eq new_MemoryManager_def new_segment_def)
  have mo: "maybe_optimize_memory cmS now2 = optimize_active_memory cmS now2"
    using assms cfg1
    by (simp add: maybe_optimize_memory_def Let_def get_all_segments_def cmS_def dict_values_def new_segment_def)
  have st: "store (memory_manager cm1) ACTIVE ?s2 = Inr (sid2, memory_manager cmS)"
    using assms by (simp add: store_def cm1_def cmS_def new_MemoryManager_def new_segment_def)
  have a2: "fst (add_context cm1 sid2 c2 m2 now2) = Inr sid2"
     "memory_manager (snd (add_context cm1 sid2 c2 m2 now2)) = new_MemoryManager\<lparr>active_memory := [(sid1, ?s1)], working_memory := [(sid2, ?s2)]\<rparr>"
    using st mo opt
    by (simp_all add: add_context_def new_segment_def[symmetric] cmS_def)
  show ?thesis using a1 a2 by (simp add: cm1_def new_MemoryManager_def)
qed


theorem two_segments_over_budget_witness:
  "max_context_size cfg10 = 10 \<and> length ''alpha1'' = 6 \<and> length ''beta22'' = 6
   \<and> fst (add_context (snd (add_context (new_ContextManager cfg10 0) ''s1'' ''alpha1'' [] 0))
             ''s2'' ''beta22'' [] 1000000) = Inr ''s2''
   \<and> active_memory (memory_manager
        (snd (add_context (snd (add_context (new_ContextManager cfg10 0) ''s1'' ''alpha1'' [] 0))
               ''s2'' ''beta22'' [] 1000000)))
       = [(''s1'', new_segment ''s1'' ''alpha1'' [] 0)]
   \<and> working_memory (memory_manager
        (snd (add_context (snd (add_context (new_ContextManager cfg10 0) ''s1'' ''alpha1'' [] 0))
               ''s2'' ''beta22'' [] 1000000)))
       = [(''s2'', new_segment ''s2'' ''beta22'' [] 1000000)]"
proof -
  have h: "max_context_size cfg10 = 10" "length ''alpha1'' = 6" "length ''beta22'' = 6"
    "''s1'' \<noteq> ''s2''" "(0::int) \<le> 1000000"
    by (simp_all add: cfg10_def)
  from two_segments_over_budget[OF h, of 0 "[]" "[]"] h show ?thesis by simp
qed








section \<open>The retrieval engine\<close>

lemma score_loop_eq:
  "score_loop (word_set query) segments acc =
     (map (rescored query) segments,
      acc @ map (rescored query) (filter (has_overlap query) segments))"
proof (induction segments arbitrary: acc)
  case Nil
  show ?case by simp
next
  case (Cons s segments)
  have fin: "finite (word_set query \<inter> word_set (content s))" by (simp add: word_set_def)
  have pos: "0 < card (word_set query \<inter> word_set (content s)) \<longleftrightarrow> has_overlap query s"
    using fin by (simp add: has_overlap_def card_gt_0_iff)
  show ?case
  proof (cases "has_overlap query s")
    case True
    then show ?thesis using pos
      by (simp add: Cons.IH word_set_def[symmetric] rescored_def overlap_score_def Let_def)
  next
    case False
    then show ?thesis using pos
      by (simp add: Cons.IH word_set_def[symmetric] rescored_def Let_def)
  qed
qed

lemma engine_retrieve_eq:
  "engine_retrieve query segments limit =
     (py_slice_to (ranking query segments) limit, map (rescored query) segments)"
  by (simp add: engine_retrieve_def word_set_def[symmetric] score_loop_eq ranking_def Let_def)

lemma py_sort_desc_sorted:
  "sorted_wrt (\<lambda>a b. f a \<ge> f b) (py_sort_desc f xs)"
proof -
  have "sorted (map (\<lambda>x. - f x) (sort_key (\<lambda>x. - f x) xs))" by (rule sorted_sort_key)
  then show ?thesis by (simp add: py_sort_desc_def sorted_map sorted_wrt_iff_nth_less)
qed

lemma py_sort_desc_stable:
  "filter (\<lambda>x. f x = k) (py_sort_desc f xs) = filter (\<lambda>x. f x = k) xs"
proof -
  have "filter (\<lambda>x. - f x = - k) (sort_key (\<lambda>x. - f x) xs) = filter (\<lambda>x. - f x = - k) xs"
    by (rule sort_key_stable)
  then show ?thesis by (simp add: py_sort_desc_def)
qed

lemma words_beta: "word_set ''beta'' = {''beta''}"
proof -
  have "py_split (py_lower ''beta'') = [''beta'']" by code_simp
  then show ?thesis by (simp add: word_set_def)
qed

lemma words_abg: "word_set ''alpha beta gamma'' = {''alpha'', ''beta'', ''gamma''}"
proof -
  have "py_split (py_lower ''alpha beta gamma'') = [''alpha'', ''beta'', ''gamma'']" by code_simp
  then show ?thesis by (simp add: word_set_def)
qed

lemma add_context_first:
  "memory_manager (snd (add_context (new_ContextManager cfg t0) sid c meta now)) =
     (if int (length c) > max_context_size cfg
      then new_MemoryManager\<lparr>working_memory := [(sid, new_segment sid c meta now)]\<rparr>
      else new_MemoryManager\<lparr>active_memory := [(sid, new_segment sid c meta now)]\<rparr>)"
proof -
  let ?s = "new_segment sid c meta now"
  let ?cm0 = "new_ContextManager cfg t0"
  let ?cmS = "?cm0\<lparr>memory_manager := new_MemoryManager\<lparr>active_memory := [(sid, ?s)]\<rparr>\<rparr>"
  have st: "store (memory_manager ?cm0) ACTIVE ?s = Inr (sid, memory_manager ?cmS)"
    by (simp add: store_def new_ContextManager_def new_MemoryManager_def new_segment_def)
  have sc: "score_all now [?s] = Inr [0]"
    using score_segment_unread[of ?s now] by (simp add: new_segment_def)
  have rk: "ranked now [?s] = [?s]" using sc by (simp add: ranked_def py_sort_desc_def)
  have opt: "optimize_active_memory ?cmS now =
      (Inr (), ?cmS\<lparr>memory_manager := new_MemoryManager\<lparr>working_memory := [(sid, ?s)]\<rparr>\<rparr>)"
    using sc rk
    by (simp add: optimize_active_memory_eq dict_values_def move_loop_eq new_MemoryManager_def new_segment_def)
  have mo: "maybe_optimize_memory ?cmS now =
      (if int (length c) > max_context_size cfg then optimize_active_memory ?cmS now else (Inr (), ?cmS))"
    by (simp add: maybe_optimize_memory_def Let_def get_all_segments_def dict_values_def
        new_segment_def new_ContextManager_def)
  show ?thesis
    using st mo opt
    by (simp add: add_context_def new_segment_def[symmetric] new_ContextManager_def)
qed

text \<open>
  Claim C5. \<^verbatim>\<open>BasicRetrievalEngine.retrieve\<close> scores a candidate by the number of words of
  the query that its content has, over the number of words of the query, on lower-cased
  word sets. A candidate with no word in common is left out and keeps the score it had; a
  candidate with a word in common gets the score written into it. The result is the
  scored candidates in descending order of score, candidates of equal score in their
  original order, cut to the limit (\<^verbatim>\<open>[:limit]\<close>, the first \<open>limit\<close> of them for a limit
  that is not negative). After \<^verbatim>\<open>add_context("alpha beta gamma")\<close> on a new manager,
  \<^verbatim>\<open>retrieve_relevant("beta", 5)\<close> returns that segment with the score 1.
\<close>

theorem retrieve_scores_by_word_overlap:
  "snd (engine_retrieve query segments limit) = map (rescored query) segments
   \<and> fst (engine_retrieve query segments limit) = py_slice_to (ranking query segments) limit
   \<and> (0 \<le> limit \<longrightarrow>
        fst (engine_retrieve query segments limit) = take (nat limit) (ranking query segments))
   \<and> sorted_wrt (\<lambda>a b. relevance_score a \<ge> relevance_score b) (ranking query segments)
   \<and> (\<forall>k. filter (\<lambda>s. relevance_score s = k) (ranking query segments)
          = filter (\<lambda>s. relevance_score s = k)
              (map (\<lambda>s. s\<lparr>relevance_score := overlap_score query s\<rparr>)
                 (filter (has_overlap query) segments)))
   \<and> (\<forall>s. \<not> has_overlap query s \<longrightarrow> rescored query s = s)
   \<and> (\<forall>s. has_overlap query s \<longrightarrow> rescored query s = s\<lparr>relevance_score := overlap_score query s\<rparr>)
   \<and> fst (retrieve_relevant
            (snd (add_context (new_ContextManager cfg t0) sid ''alpha beta gamma'' meta now))
            ''beta'' 5 elapsed_ms)
        = [(new_segment sid ''alpha beta gamma'' meta now)\<lparr>relevance_score := 1\<rparr>]
   \<and> overlap_score ''beta'' (new_segment sid ''alpha beta gamma'' meta now) = 1"
proof -
  let ?s = "new_segment sid ''alpha beta gamma'' meta now"
  have m: "map (rescored query) (filter (has_overlap query) segments)
         = map (\<lambda>s. s\<lparr>relevance_score := overlap_score query s\<rparr>) (filter (has_overlap query) segments)"
    by (rule map_cong) (simp_all add: rescored_def)
  have stable: "\<forall>k. filter (\<lambda>s. relevance_score s = k) (ranking query segments)
          = filter (\<lambda>s. relevance_score s = k)
              (map (\<lambda>s. s\<lparr>relevance_score := overlap_score query s\<rparr>)
                 (filter (has_overlap query) segments))"
    unfolding ranking_def m by (simp only: py_sort_desc_stable) simp
  have ov: "has_overlap ''beta'' ?s" and sc: "overlap_score ''beta'' ?s = 1"
    by (simp_all add: has_overlap_def overlap_score_def words_beta words_abg new_segment_def)
  have rs: "rescored ''beta'' ?s = ?s\<lparr>relevance_score := 1\<rparr>" using ov sc by (simp add: rescored_def)
  have er: "engine_retrieve ''beta'' [?s] 5 = ([?s\<lparr>relevance_score := 1\<rparr>], [?s\<lparr>relevance_score := 1\<rparr>])"
    using ov rs by (simp add: engine_retrieve_eq ranking_def py_sort_desc_def py_slice_to_def)
  have scen: "fst (retrieve_relevant (snd (add_context (new_ContextManager cfg t0) sid ''alpha beta gamma'' meta now))
            ''beta'' 5 elapsed_ms) = [?s\<lparr>relevance_score := 1\<rparr>]"
    using er
    by (simp add: retrieve_relevant_def add_context_first get_all_segments_def dict_values_def
        new_MemoryManager_def Let_def tier_names_distinct)
  show ?thesis
    using stable scen sc py_sort_desc_sorted[of relevance_score]
    by (simp add: engine_retrieve_eq rescored_def py_slice_to_def ranking_def)
qed


theorem retrieve_scores_by_word_overlap_witness:
  "map (\<lambda>s. (id' s, relevance_score s)) (fst (engine_retrieve ''Machine learning'' candidates 2))
     = [(''c'', 1), (''a'', 1 / 2)]
   \<and> map (\<lambda>s. (id' s, relevance_score s)) (snd (engine_retrieve ''Machine learning'' candidates 2))
     = [(''a'', 1 / 2), (''b'', 9 / 10), (''c'', 1), (''d'', 1 / 2)]
   \<and> map (\<lambda>s. (id' s, relevance_score s)) (ranking ''Machine learning'' candidates)
     = [(''c'', 1), (''a'', 1 / 2), (''d'', 1 / 2)]
   \<and> \<not> has_overlap ''Machine learning'' (candidate ''b'' ''cooking pasta'' (9 / 10))
   \<and> map (\<lambda>s. (id' s, relevance_score s))
        (fst (retrieve_relevant
               (snd (add_context (new_ContextManager default_config 0) ''s1'' ''alpha beta gamma'' [] 0))
               ''beta'' 5 3))
     = [(''s1'', 1)]"
proof -
  note t = retrieve_scores_by_word_overlap[of "''Machine learning''" candidates 2 default_config 0 "''s1''" "[]" 0 3]
  have r: "map (\<lambda>s. (id' s, relevance_score s)) (ranking ''Machine learning'' candidates)
     = [(''c'', 1), (''a'', 1 / 2), (''d'', 1 / 2)]" by code_simp
  have r2: "map (\<lambda>s. (id' s, relevance_score s)) (take 2 (ranking ''Machine learning'' candidates))
     = [(''c'', 1), (''a'', 1 / 2)]" using r by (simp add: take_map[symmetric])
  have c: "map (\<lambda>s. (id' s, relevance_score s)) (map (rescored ''Machine learning'') candidates)
     = [(''a'', 1 / 2), (''b'', 9 / 10), (''c'', 1), (''d'', 1 / 2)]" by code_simp
  have n: "\<not> has_overlap ''Machine learning'' (candidate ''b'' ''cooking pasta'' (9 / 10))" by code_simp
  from t have "(0::int) \<le> 2 \<longrightarrow>
      fst (engine_retrieve ''Machine learning'' candidates 2) = take (nat 2) (ranking ''Machine learning'' candidates)"
    by blast
  then have f: "fst (engine_retrieve ''Machine learning'' candidates 2) = take 2 (ranking ''Machine learning'' candidates)"
    by simp
  have s: "snd (engine_retrieve ''Machine learning'' candidates 2) = map (rescored ''Machine learning'') candidates"
    using t by blast
  have a: "fst (retrieve_relevant
               (snd (add_context (new_ContextManager default_config 0) ''s1'' ''alpha beta gamma'' [] 0))
               ''beta'' 5 3) = [(new_segment ''s1'' ''alpha beta gamma'' [] 0)\<lparr>relevance_score := 1\<rparr>]"
    using t by blast
  show ?thesis using r r2 c n by (simp add: f s a new_segment_def)
qed


end
